theory Spec2Isabelle
  imports Main
begin

section \<open>Strings\<close>

text \<open>
  A string is a list of 8-bit characters, read as the code points U+0000 to U+00FF.
  On this range \<^verbatim>\<open>String.prototype.trim\<close> removes TAB, LF, VT, FF, CR, SPACE and
  NO-BREAK SPACE from both ends, and \<^verbatim>\<open>String.prototype.toLowerCase\<close> moves the
  letters A to Z and the accented capitals U+00C0 to U+00DE (without the multiplication
  sign U+00D7) up by 32. \<open>isUpperCaseChar\<close> names these capital letters; no other
  character of the range has a lower-case form different from itself.
\<close>

definition isWhiteSpace :: "char \<Rightarrow> bool" where
  "isWhiteSpace c = (of_char c \<in> set [9, 10, 11, 12, 13, 32, 160 :: nat])"


definition toLowerCaseChar :: "char \<Rightarrow> char" where
  "toLowerCaseChar c =
     (let n = of_char c :: nat in
      if (65 \<le> n \<and> n \<le> 90) \<or> (192 \<le> n \<and> n \<le> 222 \<and> n \<noteq> 215)
      then char_of (n + 32) else c)"

definition trim :: "string \<Rightarrow> string" where
  "trim s = rev (dropWhile isWhiteSpace (rev (dropWhile isWhiteSpace s)))"

definition toLowerCase :: "string \<Rightarrow> string" where
  "toLowerCase s = map toLowerCaseChar s"

text \<open>
  The service has no function of this name: every comparison writes
  \<^verbatim>\<open>x.trim().toLowerCase()\<close> in place. \<open>normalizeText\<close> is that expression; the
  specification calls it normalize.
\<close>

definition normalizeText :: "string \<Rightarrow> string" where
  "normalizeText s = toLowerCase (trim s)"

section \<open>Edit distance\<close>

text \<open>
  Modelled from the spec: the body of \<^verbatim>\<open>AnswerService.levenshtein\<close> is missing from the
  source (it holds only the comment "Implementation of the Levenshtein distance
  algorithm"). The spec gives the table: \<open>d[i][0] = i\<close>, \<open>d[0][j] = j\<close>,
  \<open>d[i][j] = d[i-1][j-1]\<close> when the characters are equal and
  \<open>1 + min(d[i-1][j], d[i][j-1], d[i-1][j-1])\<close> otherwise. \<open>d a b i j\<close> is the entry
  \<open>d[i][j]\<close> for the first \<open>i\<close> characters of \<open>a\<close> and the first \<open>j\<close> of \<open>b\<close>.
\<close>

fun d :: "string \<Rightarrow> string \<Rightarrow> nat \<Rightarrow> nat \<Rightarrow> nat" where
  "d a b 0 j = j"
| "d a b (Suc i) 0 = Suc i"
| "d a b (Suc i) (Suc j) =
     (if a ! i = b ! j then d a b i j
      else 1 + min (d a b i (Suc j)) (min (d a b (Suc i) j) (d a b i j)))"

definition levenshtein :: "string \<Rightarrow> string \<Rightarrow> nat" where
  "levenshtein a b = d a b (length a) (length b)"

definition isFuzzyMatch :: "string \<Rightarrow> string \<Rightarrow> bool" where
  "isFuzzyMatch userInput correctAnswer =
     (levenshtein (normalizeText userInput) (normalizeText correctAnswer) \<le> 2)"

section \<open>The answer store and the synonym service\<close>

text \<open>
  A row of the table \<^verbatim>\<open>answers\<close>. The column \<^verbatim>\<open>correct_answer\<close> is
  \<^verbatim>\<open>TEXT NOT NULL\<close>; \<^verbatim>\<open>answer_variations\<close> is \<^verbatim>\<open>TEXT[]\<close> and may be null.
\<close>

record answer_row =
  correct_answer :: string
  answer_variations :: "string list option"

text \<open>
  What awaiting the query \<^verbatim>\<open>from('answers').select('*').eq('question_id', questionId)\<close>
  yields: the pair \<^verbatim>\<open>{ data, error }\<close>, each of which may be null.
\<close>

record query_result =
  data :: "answer_row list option"
  error :: "string option"

text \<open>The exceptions that the code can raise; nothing in the source catches any.\<close>

datatype exn = TypeError | FetchFailed | JsonSyntaxError

record entry =
  word :: string
  score :: int

text \<open>
  What the request \<^verbatim>\<open>fetch(`https://api.datamuse.com/words?ml=${word}`)\<close> followed by
  \<^verbatim>\<open>response.json()\<close> comes to: the request is rejected, the body is not JSON, the
  JSON is not an array, or it is an array of entries.
\<close>

datatype response = NetworkFailure | MalformedBody | NotAnArray | Entries "entry list"

definition fetchSynonyms :: "(string \<Rightarrow> response) \<Rightarrow> string \<Rightarrow> exn + string list" where
  "fetchSynonyms http w =
     (case http w of
        NetworkFailure \<Rightarrow> Inl FetchFailed
      | MalformedBody \<Rightarrow> Inl JsonSyntaxError
      | NotAnArray \<Rightarrow> Inl TypeError
      | Entries es \<Rightarrow> Inr (map word es))"

definition isSynonymMatch ::
  "(string \<Rightarrow> response) \<Rightarrow> string \<Rightarrow> string \<Rightarrow> exn + bool" where
  "isSynonymMatch http userInput correctAnswer =
     (case fetchSynonyms http correctAnswer of
        Inl e \<Rightarrow> Inl e
      | Inr synonyms \<Rightarrow> Inr (normalizeText userInput \<in> set synonyms))"

section \<open>The answer service\<close>

text \<open>
  \<open>checkAnswer\<close> returns, next to its result, the matchers it has evaluated, in the
  order of evaluation: the condition of step 2, the fuzzy match against the correct
  answer, the fuzzy match against one variation, the synonym match.
\<close>

datatype tier = ExactVariant | FuzzyCanonical | FuzzyVariant string | Synonym

text \<open>
  Step 2, the condition
  \<^verbatim>\<open>correctAnswer.trim().toLowerCase() === userInput.trim().toLowerCase() ||
  answerVariations.includes(userInput.trim().toLowerCase())\<close>.
  The right operand is evaluated only when the left one is false, and reading
  \<^verbatim>\<open>includes\<close> of null raises a TypeError.
\<close>

definition exactOrVariant :: "string \<Rightarrow> string list option \<Rightarrow> string \<Rightarrow> exn + bool" where
  "exactOrVariant correctAnswer answerVariations userInput =
     (if normalizeText correctAnswer = normalizeText userInput then Inr True
      else case answerVariations of
             None \<Rightarrow> Inl TypeError
           | Some vs \<Rightarrow> Inr (normalizeText userInput \<in> set vs))"

text \<open>
  \<^verbatim>\<open>answerVariations.some((variation) => this.isFuzzyMatch(userInput, variation))\<close>:
  the callback runs on the variations in order and stops at the first that matches.
\<close>

fun someFuzzy :: "string \<Rightarrow> string list \<Rightarrow> tier list \<times> bool" where
  "someFuzzy userInput [] = ([], False)"
| "someFuzzy userInput (variation # rest) =
     (if isFuzzyMatch userInput variation then ([FuzzyVariant variation], True)
      else case someFuzzy userInput rest of
             (seen, b) \<Rightarrow> (FuzzyVariant variation # seen, b))"

text \<open>Step 3, the condition \<^verbatim>\<open>this.isFuzzyMatch(userInput, correctAnswer) || ...some(...)\<close>.\<close>

definition fuzzyStep ::
  "string \<Rightarrow> string list option \<Rightarrow> string \<Rightarrow> tier list \<times> (exn + bool)" where
  "fuzzyStep correctAnswer answerVariations userInput =
     (if isFuzzyMatch userInput correctAnswer then ([FuzzyCanonical], Inr True)
      else case answerVariations of
             None \<Rightarrow> ([FuzzyCanonical], Inl TypeError)
           | Some vs \<Rightarrow>
               (case someFuzzy userInput vs of
                  (seen, b) \<Rightarrow> (FuzzyCanonical # seen, Inr b)))"

definition checkAnswer ::
  "(int \<Rightarrow> query_result) \<Rightarrow> (string \<Rightarrow> response) \<Rightarrow> int \<Rightarrow> string
     \<Rightarrow> tier list \<times> (exn + bool)" where
  "checkAnswer supabase http questionId userInput =
     (let res = supabase questionId in
      if error res \<noteq> None then ([], Inr False)
      else case data res of
        None \<Rightarrow> ([], Inl TypeError)
      | Some [] \<Rightarrow> ([], Inr False)
      | Some (row # _) \<Rightarrow>
          (let correctAnswer = correct_answer row;
               answerVariations = answer_variations row
           in case exactOrVariant correctAnswer answerVariations userInput of
                Inl e \<Rightarrow> ([ExactVariant], Inl e)
              | Inr True \<Rightarrow> ([ExactVariant], Inr True)
              | Inr False \<Rightarrow>
                  (case fuzzyStep correctAnswer answerVariations userInput of
                     (seen, Inl e) \<Rightarrow> (ExactVariant # seen, Inl e)
                   | (seen, Inr True) \<Rightarrow> (ExactVariant # seen, Inr True)
                   | (seen, Inr False) \<Rightarrow>
                       (ExactVariant # seen @ [Synonym],
                        isSynonymMatch http userInput correctAnswer))))"

section \<open>The tier policy of the specification\<close>

text \<open>
  The specification's order of the tiers for a variant list, what it means for a tier to
  accept, and the tiers that a policy stopping at the first acceptance evaluates. These
  three follow the specification; the service above is compared with them.
\<close>

definition tierOrder :: "string list \<Rightarrow> tier list" where
  "tierOrder vs = ExactVariant # FuzzyCanonical # map FuzzyVariant vs @ [Synonym]"

fun accepts :: "(string \<Rightarrow> response) \<Rightarrow> string \<Rightarrow> string list \<Rightarrow> string \<Rightarrow> tier \<Rightarrow> bool" where
  "accepts http c vs u ExactVariant = (exactOrVariant c (Some vs) u = Inr True)"
| "accepts http c vs u FuzzyCanonical = isFuzzyMatch u c"
| "accepts http c vs u (FuzzyVariant v) = isFuzzyMatch u v"
| "accepts http c vs u Synonym = (isSynonymMatch http u c = Inr True)"

fun upToFirst :: "('a \<Rightarrow> bool) \<Rightarrow> 'a list \<Rightarrow> 'a list" where
  "upToFirst P [] = []"
| "upToFirst P (t # ts) = (if P t then [t] else t # upToFirst P ts)"

section \<open>Sample data\<close>

definition roundRow :: answer_row where
  "roundRow = \<lparr>correct_answer = ''round'', answer_variations = Some [''Orb'', ''ball'']\<rparr>"

definition oxRow :: answer_row where
  "oxRow = \<lparr>correct_answer = ''ox'', answer_variations = Some []\<rparr>"

definition nullRow :: answer_row where
  "nullRow = \<lparr>correct_answer = ''round'', answer_variations = None\<rparr>"

definition squareRow :: answer_row where
  "squareRow = \<lparr>correct_answer = ''square'', answer_variations = Some []\<rparr>"

definition sampleStore :: "int \<Rightarrow> query_result" where
  "sampleStore questionId =
     (if questionId = 1 then \<lparr>data = Some [roundRow], error = None\<rparr>
      else if questionId = 2 then \<lparr>data = Some [oxRow], error = None\<rparr>
      else if questionId = 3 then \<lparr>data = Some [roundRow, squareRow], error = None\<rparr>
      else if questionId = 4 then \<lparr>data = None, error = Some ''connection refused''\<rparr>
      else if questionId = 6 then \<lparr>data = Some [nullRow], error = None\<rparr>
      else \<lparr>data = Some [], error = None\<rparr>)"

definition noSynonyms :: "string \<Rightarrow> response" where
  "noSynonyms w = Entries []"

definition deadService :: "string \<Rightarrow> response" where
  "deadService w = NetworkFailure"

definition sampleService :: "string \<Rightarrow> response" where
  "sampleService w =
     Entries [\<lparr>word = ''Circle'', score = 90\<rparr>, \<lparr>word = ''rund'', score = 70\<rparr>]"

section \<open>Facts about the string functions\<close>



lemma trim_Nil: "trim [] = []"
  by (simp add: trim_def)

lemma normalize_Nil: "normalizeText [] = []"
  by (simp add: normalizeText_def toLowerCase_def trim_Nil)







section \<open>Facts about the edit distance\<close>

lemma d_right_zero: "d a b i 0 = i"
  by (cases i) simp_all

lemma d_sym: "d a b i j = d b a j i"
proof (induction a b i j rule: d.induct)
  case (1 a b j)
  then show ?case by (simp add: d_right_zero)
next
  case (2 a b i)
  then show ?case by simp
next
  case (3 a b i j)
  then show ?case by (auto simp: min.commute min.left_commute)
qed

lemma d_zero_iff:
  "i \<le> length a \<Longrightarrow> j \<le> length b \<Longrightarrow> (d a b i j = 0) = (take i a = take j b)"
proof (induction a b i j rule: d.induct)
  case (1 a b j)
  then show ?case by auto
next
  case (2 a b i)
  then show ?case by auto
next
  case (3 a b i j)
  from 3 have la: "i < length a" and lb: "j < length b"
    by simp_all
  have ta: "take (Suc i) a = take i a @ [a ! i]"
    using la by (simp add: take_Suc_conv_app_nth)
  have tb: "take (Suc j) b = take j b @ [b ! j]"
    using lb by (simp add: take_Suc_conv_app_nth)
  show ?case
  proof (cases "a ! i = b ! j")
    case True
    then show ?thesis using 3 la lb ta tb by simp
  next
    case False
    then show ?thesis using ta tb by simp
  qed
qed

lemma levenshtein_Nil_left: "levenshtein [] b = length b"
  by (simp add: levenshtein_def)

lemma levenshtein_Nil_right: "levenshtein a [] = length a"
  by (simp add: levenshtein_def d_right_zero)

section \<open>Facts about the answer service\<close>

lemma upToFirst_append:
  "upToFirst P (xs @ ys) = (if \<exists>x\<in>set xs. P x then upToFirst P xs else xs @ upToFirst P ys)"
  by (induction xs) auto

lemma upToFirst_none: "\<forall>x\<in>set xs. \<not> P x \<Longrightarrow> upToFirst P xs = xs"
  by (induction xs) auto

lemma set_upToFirst: "set (upToFirst P xs) \<subseteq> set xs"
  by (induction xs) auto

lemma someFuzzy_snd: "snd (someFuzzy u vs) = (\<exists>v\<in>set vs. isFuzzyMatch u v)"
  by (induction vs) (auto split: prod.splits)

lemma someFuzzy_fst:
  "fst (someFuzzy u vs) = upToFirst (accepts http c ws u) (map FuzzyVariant vs)"
  by (induction vs) (auto split: prod.splits)

lemma exactOrVariant_Some:
  "exactOrVariant c (Some vs) u = Inr (normalizeText c = normalizeText u \<or> normalizeText u \<in> set vs)"
  by (simp add: exactOrVariant_def)

lemma checkAnswer_row:
  assumes "supabase q = \<lparr>data = Some (row # rows), error = None\<rparr>"
      and "answer_variations row = Some vs"
  shows "checkAnswer supabase http q u =
           (if exactOrVariant (correct_answer row) (Some vs) u = Inr True
            then ([ExactVariant], Inr True)
            else if isFuzzyMatch u (correct_answer row)
            then ([ExactVariant, FuzzyCanonical], Inr True)
            else if snd (someFuzzy u vs)
            then (ExactVariant # FuzzyCanonical # fst (someFuzzy u vs), Inr True)
            else (ExactVariant # FuzzyCanonical # fst (someFuzzy u vs) @ [Synonym],
                  isSynonymMatch http u (correct_answer row)))"
  using assms
  by (simp add: checkAnswer_def Let_def exactOrVariant_Some fuzzyStep_def
           split: prod.splits sum.splits bool.splits)

lemma checkAnswer_null_variations:
  assumes "supabase q = \<lparr>data = Some (row # rows), error = None\<rparr>"
      and "answer_variations row = None"
  shows "checkAnswer supabase http q u =
           (if normalizeText (correct_answer row) = normalizeText u
            then ([ExactVariant], Inr True) else ([ExactVariant], Inl TypeError))"
  using assms
  by (simp add: checkAnswer_def Let_def exactOrVariant_def)


lemma Synonym_notin_earlier:
  "Synonym \<notin> set (upToFirst P (ExactVariant # FuzzyCanonical # map FuzzyVariant vs))"
proof -
  have "Synonym \<notin> set (ExactVariant # FuzzyCanonical # map FuzzyVariant vs)"
    by auto
  then show ?thesis
    using set_upToFirst [of P "ExactVariant # FuzzyCanonical # map FuzzyVariant vs"] by blast
qed

lemma checkAnswer_trace:
  assumes "supabase q = \<lparr>data = Some (row # rows), error = None\<rparr>"
      and "answer_variations row = Some vs"
  shows "fst (checkAnswer supabase http q u)
           = upToFirst (accepts http (correct_answer row) vs u) (tierOrder vs)"
proof -
  let ?A = "accepts http (correct_answer row) vs u"
  let ?early = "ExactVariant # FuzzyCanonical # map FuzzyVariant vs"
  note run = checkAnswer_row [where supabase = supabase and q = q and http = http and u = u, OF assms]
  have order: "tierOrder vs = ?early @ [Synonym]"
    by (simp add: tierOrder_def)
  have seen: "fst (someFuzzy u vs) = upToFirst ?A (map FuzzyVariant vs)"
    by (rule someFuzzy_fst)
  have some: "snd (someFuzzy u vs) = (\<exists>t\<in>set (map FuzzyVariant vs). ?A t)"
    by (auto simp: someFuzzy_snd)
  show ?thesis
  proof (cases "snd (someFuzzy u vs)")
    case True
    then show ?thesis
      unfolding run order by (simp add: seen some upToFirst_append)
  next
    case False
    then have "\<forall>t\<in>set (map FuzzyVariant vs). \<not> ?A t"
      by (simp add: some)
    then have "upToFirst ?A (map FuzzyVariant vs) = map FuzzyVariant vs"
      by (rule upToFirst_none)
    then show ?thesis
      unfolding run order using False by (simp add: seen some upToFirst_append)
  qed
qed

lemma checkAnswer_result:
  assumes "supabase q = \<lparr>data = Some (row # rows), error = None\<rparr>"
      and "answer_variations row = Some vs"
  shows "snd (checkAnswer supabase http q u)
           = (if normalizeText (correct_answer row) = normalizeText u
                 \<or> normalizeText u \<in> set vs
                 \<or> isFuzzyMatch u (correct_answer row)
                 \<or> (\<exists>v\<in>set vs. isFuzzyMatch u v)
              then Inr True
              else isSynonymMatch http u (correct_answer row))"
  unfolding checkAnswer_row [where supabase = supabase and q = q and http = http and u = u, OF assms]
  by (auto simp: exactOrVariant_Some someFuzzy_snd)



lemma isFuzzyMatch_empty_input:
  "normalizeText u = [] \<Longrightarrow> isFuzzyMatch u v = (length (normalizeText v) \<le> 2)"
  by (simp add: isFuzzyMatch_def levenshtein_Nil_left)

section \<open>Claims about the string functions\<close>

text \<open>
  C6. The edit distance is symmetric, it is zero exactly when the two strings are equal,
  and the distance between a string and the empty string is the length of the string.
\<close>

theorem levenshtein_metric_facts:
  "levenshtein a b = levenshtein b a
   \<and> ((levenshtein a b = 0) = (a = b))
   \<and> levenshtein a [] = length a
   \<and> levenshtein [] a = length a"
proof -
  have "levenshtein a b = levenshtein b a"
    unfolding levenshtein_def by (rule d_sym)
  moreover have "(levenshtein a b = 0) = (a = b)"
    using d_zero_iff [of "length a" a "length b" b] by (simp add: levenshtein_def)
  ultimately show ?thesis
    by (simp add: levenshtein_Nil_left levenshtein_Nil_right)
qed




section \<open>Claims about the answer service\<close>

text \<open>
  C1, as the code has it. For a question whose first row has a variation list that is
  not null, the matchers that \<open>checkAnswer\<close> evaluates are the tiers in the fixed
  order Exact/Variant, Fuzzy
  against the correct answer, Fuzzy against each variation in turn, Synonym, up to and
  including the first tier that accepts, and none after it. The result is \<open>true\<close>
  exactly when some tier accepts. In particular, when a tier before Synonym accepts, the
  synonym lookup is not evaluated.
\<close>

theorem checkAnswer_tier_precedence:
  assumes "supabase q = \<lparr>data = Some (row # rows), error = None\<rparr>"
      and "answer_variations row = Some vs"
  shows "fst (checkAnswer supabase http q u)
           = upToFirst (accepts http (correct_answer row) vs u) (tierOrder vs)
         \<and> ((snd (checkAnswer supabase http q u) = Inr True)
              = (\<exists>t\<in>set (tierOrder vs). accepts http (correct_answer row) vs u t))
         \<and> ((\<exists>t\<in>set (tierOrder vs). t \<noteq> Synonym \<and> accepts http (correct_answer row) vs u t)
              \<longrightarrow> Synonym \<notin> set (fst (checkAnswer supabase http q u)))"
proof -
  let ?c = "correct_answer row"
  let ?A = "accepts http ?c vs u"
  let ?early = "ExactVariant # FuzzyCanonical # map FuzzyVariant vs"
  note run = checkAnswer_row [where supabase = supabase and q = q and http = http and u = u, OF assms]
  have order: "tierOrder vs = ?early @ [Synonym]"
    by (simp add: tierOrder_def)
  have seen: "fst (someFuzzy u vs) = upToFirst ?A (map FuzzyVariant vs)"
    by (rule someFuzzy_fst)
  have some: "snd (someFuzzy u vs) = (\<exists>t\<in>set (map FuzzyVariant vs). ?A t)"
    by (auto simp: someFuzzy_snd)
  have trace: "fst (checkAnswer supabase http q u) = upToFirst ?A (tierOrder vs)"
  proof (cases "snd (someFuzzy u vs)")
    case True
    then show ?thesis
      unfolding run order by (simp add: seen some upToFirst_append)
  next
    case False
    then have "\<forall>t\<in>set (map FuzzyVariant vs). \<not> ?A t"
      by (simp add: some)
    then have "upToFirst ?A (map FuzzyVariant vs) = map FuzzyVariant vs"
      by (rule upToFirst_none)
    then show ?thesis
      unfolding run order using False by (simp add: seen some upToFirst_append)
  qed
  have result: "(snd (checkAnswer supabase http q u) = Inr True) = (\<exists>t\<in>set (tierOrder vs). ?A t)"
    unfolding run order by (auto simp: someFuzzy_snd)
  have early: "Synonym \<notin> set (fst (checkAnswer supabase http q u))"
    if "\<exists>t\<in>set (tierOrder vs). t \<noteq> Synonym \<and> ?A t"
  proof -
    from that have "\<exists>t\<in>set ?early. ?A t"
      unfolding order by auto
    then have "upToFirst ?A (tierOrder vs) = upToFirst ?A ?early"
      unfolding order upToFirst_append by (simp only: if_True)
    then show ?thesis
      unfolding trace using Synonym_notin_earlier [of ?A vs] by simp
  qed
  show ?thesis
    using trace result early by blast
qed


theorem checkAnswer_tier_precedence_witness:
  "sampleStore 1 = \<lparr>data = Some (roundRow # []), error = None\<rparr>
   \<and> answer_variations roundRow = Some [''Orb'', ''ball'']
   \<and> accepts sampleService (correct_answer roundRow) [''Orb'', ''ball''] ''rund'' FuzzyCanonical
   \<and> accepts sampleService (correct_answer roundRow) [''Orb'', ''ball''] ''rund'' Synonym
   \<and> checkAnswer sampleStore sampleService 1 ''rund'' = ([ExactVariant, FuzzyCanonical], Inr True)
   \<and> Synonym \<notin> set (fst (checkAnswer sampleStore sampleService 1 ''rund''))"
proof -
  have s: "sampleStore 1 = \<lparr>data = Some (roundRow # []), error = None\<rparr>"
    by (simp add: sampleStore_def)
  have v: "answer_variations roundRow = Some [''Orb'', ''ball'']"
    by (simp add: roundRow_def)
  have f: "accepts sampleService (correct_answer roundRow) [''Orb'', ''ball''] ''rund'' FuzzyCanonical"
    by code_simp
  have y: "accepts sampleService (correct_answer roundRow) [''Orb'', ''ball''] ''rund'' Synonym"
    by code_simp
  have m: "FuzzyCanonical \<in> set (tierOrder [''Orb'', ''ball''])"
    by (simp add: tierOrder_def)
  have r: "checkAnswer sampleStore sampleService 1 ''rund'' = ([ExactVariant, FuzzyCanonical], Inr True)"
    by code_simp
  have "Synonym \<notin> set (fst (checkAnswer sampleStore sampleService 1 ''rund''))"
    using checkAnswer_tier_precedence
      [where supabase = sampleStore and q = 1 and http = sampleService and u = "''rund''", OF s v]
      f m by blast
  then show ?thesis
    using s v f y r by blast
qed

text \<open>
  C1, as the spec states it, fails on a row whose variation list is null: for the input
  "rund" the fuzzy match against the correct answer and the synonym match both accept,
  but step 2 raises a TypeError first, so that no tier is returned.
\<close>

theorem null_variations_counterexample:
  "answer_variations nullRow = None
   \<and> isFuzzyMatch ''rund'' (correct_answer nullRow)
   \<and> isSynonymMatch sampleService ''rund'' (correct_answer nullRow) = Inr True
   \<and> checkAnswer sampleStore sampleService 6 ''rund'' = ([ExactVariant], Inl TypeError)"
  by code_simp

text \<open>
  C2, as the code has it. When the store resolves no row for the question id,
  \<open>checkAnswer\<close> evaluates no matcher and returns \<open>false\<close>, the value it returns
  for a wrong guess; it raises nothing.
\<close>

theorem checkAnswer_no_rows_is_rejection:
  "data (supabase q) = Some [] \<Longrightarrow> checkAnswer supabase http q u = ([], Inr False)"
  by (simp add: checkAnswer_def Let_def)

theorem checkAnswer_no_rows_is_rejection_witness:
  "data (sampleStore 5) = Some []
   \<and> checkAnswer sampleStore noSynonyms 5 ''round'' = ([], Inr False)"
proof -
  have h: "data (sampleStore 5) = Some []"
    by (simp add: sampleStore_def)
  show ?thesis
    using h checkAnswer_no_rows_is_rejection
      [where supabase = sampleStore and q = 5 and http = noSynonyms and u = "''round''", OF h]
    by simp
qed

text \<open>
  C2, as the spec states it, fails: an unknown question id gives the result of a wrong
  guess and no error.
\<close>

theorem unknown_question_counterexample:
  "snd (checkAnswer sampleStore noSynonyms 5 ''round'') = Inr False
   \<and> snd (checkAnswer sampleStore noSynonyms 5 ''round'')
       = snd (checkAnswer sampleStore noSynonyms 1 ''xyz'')"
  by code_simp

text \<open>
  C10. When the store query reports an error, \<open>checkAnswer\<close> evaluates no matcher
  and returns \<open>false\<close>, the ordinary rejection; it raises nothing.
\<close>

theorem checkAnswer_store_error_is_rejection:
  "error (supabase q) \<noteq> None \<Longrightarrow> checkAnswer supabase http q u = ([], Inr False)"
  by (simp add: checkAnswer_def Let_def)

theorem checkAnswer_store_error_is_rejection_witness:
  "error (sampleStore 4) \<noteq> None
   \<and> checkAnswer sampleStore noSynonyms 4 ''round'' = ([], Inr False)"
proof -
  have h: "error (sampleStore 4) \<noteq> None"
    by (simp add: sampleStore_def)
  show ?thesis
    using h checkAnswer_store_error_is_rejection
      [where supabase = sampleStore and q = 4 and http = noSynonyms and u = "''round''", OF h]
    by simp
qed

text \<open>
  C9. When the store returns several rows, \<open>checkAnswer\<close> does what it does on the
  first row alone: the rows after the first change neither the result nor the matchers
  evaluated. When the query reports no error, the input is validated against the correct
  answer and the variation list of the first row: the tiers are those of the first row,
  and the input is accepted when it equals the normalized correct answer or a variation
  of that row, or is a fuzzy match of one of them, and otherwise the synonym match for the
  first row's correct answer decides (a null variation list raises a TypeError unless the
  correct answer matches).
\<close>

theorem checkAnswer_first_row_only:
  assumes "supabase q = \<lparr>data = Some (row # rows), error = err\<rparr>"
  shows "checkAnswer supabase http q u
           = checkAnswer (supabase (q := \<lparr>data = Some [row], error = err\<rparr>)) http q u
         \<and> (err = None \<longrightarrow>
              checkAnswer supabase http q u
                = (case answer_variations row of
                     None \<Rightarrow>
                       ([ExactVariant],
                        if normalizeText (correct_answer row) = normalizeText u
                        then Inr True else Inl TypeError)
                   | Some vs \<Rightarrow>
                       (upToFirst (accepts http (correct_answer row) vs u) (tierOrder vs),
                        if normalizeText (correct_answer row) = normalizeText u
                           \<or> normalizeText u \<in> set vs
                           \<or> isFuzzyMatch u (correct_answer row)
                           \<or> (\<exists>v\<in>set vs. isFuzzyMatch u v)
                        then Inr True
                        else isSynonymMatch http u (correct_answer row))))"
proof -
  have same: "checkAnswer supabase http q u
                = checkAnswer (supabase (q := \<lparr>data = Some [row], error = err\<rparr>)) http q u"
    using assms by (simp add: checkAnswer_def Let_def)
  have first: "checkAnswer supabase http q u
                 = (case answer_variations row of
                      None \<Rightarrow>
                        ([ExactVariant],
                         if normalizeText (correct_answer row) = normalizeText u
                         then Inr True else Inl TypeError)
                    | Some vs \<Rightarrow>
                        (upToFirst (accepts http (correct_answer row) vs u) (tierOrder vs),
                         if normalizeText (correct_answer row) = normalizeText u
                            \<or> normalizeText u \<in> set vs
                            \<or> isFuzzyMatch u (correct_answer row)
                            \<or> (\<exists>v\<in>set vs. isFuzzyMatch u v)
                         then Inr True
                         else isSynonymMatch http u (correct_answer row)))"
    if ok: "err = None"
  proof (cases "answer_variations row")
    case None
    have st: "supabase q = \<lparr>data = Some (row # rows), error = None\<rparr>"
      using assms ok by simp
    show ?thesis
      unfolding checkAnswer_null_variations
        [where supabase = supabase and q = q and u = u, OF st None]
      using None by simp
  next
    case (Some vs)
    have st: "supabase q = \<lparr>data = Some (row # rows), error = None\<rparr>"
      using assms ok by simp
    have "checkAnswer supabase http q u
            = (fst (checkAnswer supabase http q u), snd (checkAnswer supabase http q u))"
      by simp
    then show ?thesis
      unfolding checkAnswer_trace [where supabase = supabase and q = q and u = u, OF st Some]
        checkAnswer_result [where supabase = supabase and q = q and u = u, OF st Some]
      using Some by simp
  qed
  show ?thesis
    using same first by blast
qed

theorem checkAnswer_first_row_only_witness:
  "sampleStore 3 = \<lparr>data = Some (roundRow # [squareRow]), error = None\<rparr>
   \<and> normalizeText ''square'' = normalizeText (correct_answer squareRow)
   \<and> checkAnswer sampleStore noSynonyms 3 ''square''
       = checkAnswer (sampleStore (3 := \<lparr>data = Some [roundRow], error = None\<rparr>)) noSynonyms 3 ''square''
   \<and> checkAnswer sampleStore noSynonyms 3 ''square''
       = ([ExactVariant, FuzzyCanonical, FuzzyVariant ''Orb'', FuzzyVariant ''ball'', Synonym],
          Inr False)
   \<and> checkAnswer sampleStore noSynonyms 3 ''Round'' = ([ExactVariant], Inr True)
   \<and> checkAnswer sampleStore noSynonyms 3 ''bal''
       = ([ExactVariant, FuzzyCanonical, FuzzyVariant ''Orb'', FuzzyVariant ''ball''], Inr True)"
proof -
  have h: "sampleStore 3 = \<lparr>data = Some (roundRow # [squareRow]), error = None\<rparr>"
    by (simp add: sampleStore_def)
  have n: "normalizeText ''square'' = normalizeText (correct_answer squareRow)"
    by code_simp
  note th = checkAnswer_first_row_only
    [where supabase = sampleStore and q = 3 and http = noSynonyms, OF h]
  have v: "answer_variations roundRow = Some [''Orb'', ''ball'']"
    by (simp add: roundRow_def)
  have r1: "(upToFirst (accepts noSynonyms (correct_answer roundRow) [''Orb'', ''ball''] ''square'')
               (tierOrder [''Orb'', ''ball'']),
             if normalizeText (correct_answer roundRow) = normalizeText ''square''
                \<or> normalizeText ''square'' \<in> set [''Orb'', ''ball'']
                \<or> isFuzzyMatch ''square'' (correct_answer roundRow)
                \<or> (\<exists>v\<in>set [''Orb'', ''ball'']. isFuzzyMatch ''square'' v)
             then Inr True
             else isSynonymMatch noSynonyms ''square'' (correct_answer roundRow))
            = ([ExactVariant, FuzzyCanonical, FuzzyVariant ''Orb'', FuzzyVariant ''ball'', Synonym],
               Inr False)"
    by code_simp
  have a: "checkAnswer sampleStore noSynonyms 3 ''square''
             = ([ExactVariant, FuzzyCanonical, FuzzyVariant ''Orb'', FuzzyVariant ''ball'', Synonym],
                Inr False)"
    using th [of "''square''", THEN conjunct2, THEN mp, OF refl]
    by (simp only: v option.case r1)
  have r2: "(upToFirst (accepts noSynonyms (correct_answer roundRow) [''Orb'', ''ball''] ''Round'')
               (tierOrder [''Orb'', ''ball'']),
             if normalizeText (correct_answer roundRow) = normalizeText ''Round''
                \<or> normalizeText ''Round'' \<in> set [''Orb'', ''ball'']
                \<or> isFuzzyMatch ''Round'' (correct_answer roundRow)
                \<or> (\<exists>v\<in>set [''Orb'', ''ball'']. isFuzzyMatch ''Round'' v)
             then Inr True
             else isSynonymMatch noSynonyms ''Round'' (correct_answer roundRow))
            = ([ExactVariant], Inr True)"
    by code_simp
  have b: "checkAnswer sampleStore noSynonyms 3 ''Round'' = ([ExactVariant], Inr True)"
    using th [of "''Round''", THEN conjunct2, THEN mp, OF refl]
    by (simp only: v option.case r2)
  have c: "checkAnswer sampleStore noSynonyms 3 ''bal''
             = ([ExactVariant, FuzzyCanonical, FuzzyVariant ''Orb'', FuzzyVariant ''ball''], Inr True)"
    by code_simp
  show ?thesis
    using h n a b c th [of "''square''", THEN conjunct1] by blast
qed

text \<open>
  C3, as the code has it. Let the synonym lookup fail for the correct answer of the first
  row. When the Synonym tier is not reached (an earlier tier accepts, or the null
  variation list raises), \<open>checkAnswer\<close> does what it does with a service that
  returns the empty list. When the Synonym tier is reached, where the empty list gives the
  rejection \<open>false\<close>, the failure of the lookup is the result: \<open>checkAnswer\<close>
  itself fails with that error.
\<close>

theorem synonym_failure_propagates:
  assumes "supabase q = \<lparr>data = Some (row # rows), error = None\<rparr>"
      and "fetchSynonyms http (correct_answer row) = Inl e"
      and "fetchSynonyms http0 (correct_answer row) = Inr []"
  shows "checkAnswer supabase http q u
           = (if Synonym \<in> set (fst (checkAnswer supabase http0 q u))
              then (fst (checkAnswer supabase http0 q u), Inl e)
              else checkAnswer supabase http0 q u)
         \<and> (Synonym \<in> set (fst (checkAnswer supabase http0 q u))
              \<longrightarrow> snd (checkAnswer supabase http0 q u) = Inr False)"
proof (cases "answer_variations row")
  case None
  show ?thesis
    unfolding checkAnswer_null_variations
      [where supabase = supabase and q = q and u = u, OF assms(1) None]
    by simp
next
  case (Some vs)
  have early: "Synonym \<notin> set (fst (someFuzzy u vs))"
    using set_upToFirst [of "accepts http (correct_answer row) vs u" "map FuzzyVariant vs"]
    by (auto simp: someFuzzy_fst [of u vs http "correct_answer row" vs])
  have dead: "isSynonymMatch http u (correct_answer row) = Inl e"
    using assms(2) by (simp add: isSynonymMatch_def)
  have empty: "isSynonymMatch http0 u (correct_answer row) = Inr False"
    using assms(3) by (simp add: isSynonymMatch_def)
  show ?thesis
    unfolding checkAnswer_row [where supabase = supabase and q = q and u = u, OF assms(1) Some]
    using early by (simp add: dead empty)
qed

theorem synonym_failure_propagates_witness:
  "sampleStore 1 = \<lparr>data = Some (roundRow # []), error = None\<rparr>
   \<and> fetchSynonyms deadService (correct_answer roundRow) = Inl FetchFailed
   \<and> fetchSynonyms noSynonyms (correct_answer roundRow) = Inr []
   \<and> Synonym \<in> set (fst (checkAnswer sampleStore noSynonyms 1 ''xyz''))
   \<and> snd (checkAnswer sampleStore noSynonyms 1 ''xyz'') = Inr False
   \<and> snd (checkAnswer sampleStore deadService 1 ''xyz'') = Inl FetchFailed
   \<and> Synonym \<notin> set (fst (checkAnswer sampleStore noSynonyms 1 ''rund''))
   \<and> checkAnswer sampleStore deadService 1 ''rund'' = checkAnswer sampleStore noSynonyms 1 ''rund''"
proof -
  have s: "sampleStore 1 = \<lparr>data = Some (roundRow # []), error = None\<rparr>"
    by (simp add: sampleStore_def)
  have f: "fetchSynonyms deadService (correct_answer roundRow) = Inl FetchFailed"
    by (simp add: fetchSynonyms_def deadService_def)
  have g: "fetchSynonyms noSynonyms (correct_answer roundRow) = Inr []"
    by (simp add: fetchSynonyms_def noSynonyms_def)
  have far: "Synonym \<in> set (fst (checkAnswer sampleStore noSynonyms 1 ''xyz''))"
    by code_simp
  have near: "Synonym \<notin> set (fst (checkAnswer sampleStore noSynonyms 1 ''rund''))"
    by code_simp
  note t = synonym_failure_propagates
    [where supabase = sampleStore and q = 1 and http = deadService and ?http0.0 = noSynonyms,
     OF s f g]
  show ?thesis
    using s f g far near t [of "''xyz''"] t [of "''rund''"] by simp
qed

text \<open>
  C3, as the spec states it, fails: with a dead service a wrong guess makes
  \<open>checkAnswer\<close> fail, where the empty synonym list gives \<open>false\<close>.
\<close>

theorem synonym_failure_counterexample:
  "snd (checkAnswer sampleStore deadService 1 ''xyz'') = Inl FetchFailed
   \<and> snd (checkAnswer sampleStore noSynonyms 1 ''xyz'') = Inr False"
  by code_simp

text \<open>
  C4, as the code has it. There is no guard for the empty input. For a question whose
  first row has a variation list that is not null, an input that normalizes to the empty
  string goes through the same tiers, in the same order and up to the first acceptance,
  as any other input. For such an input the condition of step 2 holds when the correct
  answer normalizes to the empty string or the empty string is a stored variation, and a
  fuzzy match holds when its target normalizes to at most two characters (the edit
  distance to the empty string is the length). So the input is accepted when the correct
  answer or some variation normalizes to at most two characters. Otherwise the synonym
  lookup decides: its failure is the result, and a list of words gives \<open>true\<close> when it
  holds the empty string and \<open>false\<close> when it does not.
\<close>

theorem empty_input_runs_all_tiers:
  assumes "normalizeText u = []"
      and "supabase q = \<lparr>data = Some (row # rows), error = None\<rparr>"
      and "answer_variations row = Some vs"
  shows "checkAnswer supabase http q u
           = (upToFirst (accepts http (correct_answer row) vs u) (tierOrder vs),
              if length (normalizeText (correct_answer row)) \<le> 2
                 \<or> (\<exists>v\<in>set vs. length (normalizeText v) \<le> 2)
              then Inr True
              else case fetchSynonyms http (correct_answer row) of
                     Inl e \<Rightarrow> Inl e
                   | Inr ws \<Rightarrow> Inr ([] \<in> set ws))
         \<and> accepts http (correct_answer row) vs u ExactVariant
             = (normalizeText (correct_answer row) = [] \<or> [] \<in> set vs)
         \<and> accepts http (correct_answer row) vs u FuzzyCanonical
             = (length (normalizeText (correct_answer row)) \<le> 2)
         \<and> accepts http (correct_answer row) vs u (FuzzyVariant w)
             = (length (normalizeText w) \<le> 2)"
proof -
  let ?c = "correct_answer row"
  have syn: "isSynonymMatch http u ?c
               = (case fetchSynonyms http ?c of Inl e \<Rightarrow> Inl e | Inr ws \<Rightarrow> Inr ([] \<in> set ws))"
    using assms(1) by (simp add: isSynonymMatch_def split: sum.splits)
  have stored: "\<exists>v\<in>set vs. length (normalizeText v) \<le> 2" if "[] \<in> set vs"
  proof -
    have "length (normalizeText []) \<le> 2"
      by (simp add: normalize_Nil)
    then show ?thesis
      using that by blast
  qed
  have res: "snd (checkAnswer supabase http q u)
               = (if length (normalizeText ?c) \<le> 2 \<or> (\<exists>v\<in>set vs. length (normalizeText v) \<le> 2)
                  then Inr True
                  else case fetchSynonyms http ?c of Inl e \<Rightarrow> Inl e | Inr ws \<Rightarrow> Inr ([] \<in> set ws))"
    unfolding checkAnswer_result
      [where supabase = supabase and q = q and u = u, OF assms(2,3)]
    using assms(1) stored by (auto simp: isFuzzyMatch_empty_input syn)
  have "checkAnswer supabase http q u
          = (fst (checkAnswer supabase http q u), snd (checkAnswer supabase http q u))"
    by simp
  then have run: "checkAnswer supabase http q u
           = (upToFirst (accepts http ?c vs u) (tierOrder vs),
              if length (normalizeText ?c) \<le> 2 \<or> (\<exists>v\<in>set vs. length (normalizeText v) \<le> 2)
              then Inr True
              else case fetchSynonyms http ?c of Inl e \<Rightarrow> Inl e | Inr ws \<Rightarrow> Inr ([] \<in> set ws))"
    unfolding res
      checkAnswer_trace [where supabase = supabase and q = q and u = u, OF assms(2,3)]
    by simp
  have ex: "accepts http ?c vs u ExactVariant = (normalizeText ?c = [] \<or> [] \<in> set vs)"
    using assms(1) by (simp add: exactOrVariant_Some)
  have fc: "accepts http ?c vs u FuzzyCanonical = (length (normalizeText ?c) \<le> 2)"
    using assms(1) by (simp add: isFuzzyMatch_empty_input)
  have fv: "accepts http ?c vs u (FuzzyVariant w) = (length (normalizeText w) \<le> 2)"
    using assms(1) by (simp add: isFuzzyMatch_empty_input)
  show ?thesis
    using run ex fc fv by blast
qed

theorem empty_input_runs_all_tiers_witness:
  "normalizeText ''  '' = []
   \<and> sampleStore 1 = \<lparr>data = Some (roundRow # []), error = None\<rparr>
   \<and> answer_variations roundRow = Some [''Orb'', ''ball'']
   \<and> checkAnswer sampleStore noSynonyms 1 ''  ''
       = ([ExactVariant, FuzzyCanonical, FuzzyVariant ''Orb'', FuzzyVariant ''ball'', Synonym],
          Inr False)
   \<and> checkAnswer sampleStore deadService 1 ''  ''
       = ([ExactVariant, FuzzyCanonical, FuzzyVariant ''Orb'', FuzzyVariant ''ball'', Synonym],
          Inl FetchFailed)"
proof -
  have n: "normalizeText ''  '' = []"
    by code_simp
  have s: "sampleStore 1 = \<lparr>data = Some (roundRow # []), error = None\<rparr>"
    by (simp add: sampleStore_def)
  have v: "answer_variations roundRow = Some [''Orb'', ''ball'']"
    by (simp add: roundRow_def)
  note th = empty_input_runs_all_tiers
    [where supabase = sampleStore and q = 1 and u = "''  ''", OF n s v]
  have r1: "(upToFirst (accepts noSynonyms (correct_answer roundRow) [''Orb'', ''ball''] ''  '')
               (tierOrder [''Orb'', ''ball'']),
             if length (normalizeText (correct_answer roundRow)) \<le> 2
                \<or> (\<exists>v\<in>set [''Orb'', ''ball'']. length (normalizeText v) \<le> 2)
             then Inr True
             else case fetchSynonyms noSynonyms (correct_answer roundRow) of
                    Inl e \<Rightarrow> Inl e
                  | Inr ws \<Rightarrow> Inr ([] \<in> set ws))
            = ([ExactVariant, FuzzyCanonical, FuzzyVariant ''Orb'', FuzzyVariant ''ball'', Synonym],
               Inr False)"
    by code_simp
  have a: "checkAnswer sampleStore noSynonyms 1 ''  ''
             = ([ExactVariant, FuzzyCanonical, FuzzyVariant ''Orb'', FuzzyVariant ''ball'', Synonym],
                Inr False)"
    using th [where http = noSynonyms, THEN conjunct1] by (simp only: r1)
  have b: "checkAnswer sampleStore deadService 1 ''  ''
             = ([ExactVariant, FuzzyCanonical, FuzzyVariant ''Orb'', FuzzyVariant ''ball'', Synonym],
                Inl FetchFailed)"
    by code_simp
  show ?thesis
    using n s v a b by blast
qed

text \<open>
  C4, as the spec states it, fails: a whitespace-only input is accepted, by the fuzzy
  matcher, for the non-empty correct answer "ox".
\<close>

theorem empty_input_counterexample:
  "normalizeText ''  '' = []
   \<and> normalizeText (correct_answer oxRow) \<noteq> []
   \<and> checkAnswer sampleStore noSynonyms 2 ''  '' = ([ExactVariant, FuzzyCanonical], Inr True)"
  by code_simp

text \<open>
  C5. The condition of step 2 at a variation stored with a capital letter: the input
  "orb", and even the input "Orb" itself, is not matched against the stored variation
  "Orb", although their normalizations are equal. The correct answer, on the other side
  of the same condition, is normalized before the comparison.
\<close>

theorem exactOrVariant_misses_stored_capital:
  "normalizeText ''orb'' = normalizeText ''Orb''
   \<and> exactOrVariant ''round'' (Some [''Orb'', ''ball'']) ''orb'' = Inr False
   \<and> exactOrVariant ''round'' (Some [''Orb'', ''ball'']) ''Orb'' = Inr False
   \<and> exactOrVariant ''Round'' (Some [''Orb'', ''ball'']) ''round'' = Inr True"
  by code_simp

text \<open>
  C8, as the code has it. The words that the lookup returns are kept as they are
  returned; \<open>isSynonymMatch\<close> is true exactly when the normalized input is one of
  them, letter for letter. So a returned word whose normalization equals the normalized
  input gives true when the service returned it in normalized form.
\<close>

theorem isSynonymMatch_tests_words_as_returned:
  assumes "http c = Entries es"
  shows "isSynonymMatch http u c = Inr (normalizeText u \<in> set (map word es))
         \<and> ((\<exists>e\<in>set es. word e = normalizeText (word e) \<and> normalizeText (word e) = normalizeText u)
              \<longrightarrow> isSynonymMatch http u c = Inr True)"
proof -
  have m: "isSynonymMatch http u c = Inr (normalizeText u \<in> set (map word es))"
    using assms by (simp add: isSynonymMatch_def fetchSynonyms_def)
  have "normalizeText u \<in> set (map word es)"
    if "\<exists>e\<in>set es. word e = normalizeText (word e) \<and> normalizeText (word e) = normalizeText u"
  proof -
    from that obtain e where "e \<in> set es" and "word e = normalizeText u"
      by auto
    then show ?thesis
      by force
  qed
  then show ?thesis
    using m by simp
qed

theorem isSynonymMatch_tests_words_as_returned_witness:
  "sampleService ''round'' = Entries [\<lparr>word = ''Circle'', score = 90\<rparr>, \<lparr>word = ''rund'', score = 70\<rparr>]
   \<and> word \<lparr>word = ''rund'', score = 70\<rparr> = normalizeText (word \<lparr>word = ''rund'', score = 70\<rparr>)
   \<and> normalizeText (word \<lparr>word = ''rund'', score = 70\<rparr>) = normalizeText '' Rund''
   \<and> isSynonymMatch sampleService '' Rund'' ''round'' = Inr True"
proof -
  have h: "sampleService ''round''
             = Entries [\<lparr>word = ''Circle'', score = 90\<rparr>, \<lparr>word = ''rund'', score = 70\<rparr>]"
    by (simp add: sampleService_def)
  have a: "word \<lparr>word = ''rund'', score = 70\<rparr> = normalizeText (word \<lparr>word = ''rund'', score = 70\<rparr>)"
    by code_simp
  have b: "normalizeText (word \<lparr>word = ''rund'', score = 70\<rparr>) = normalizeText '' Rund''"
    by code_simp
  have "isSynonymMatch sampleService '' Rund'' ''round'' = Inr True"
    using isSynonymMatch_tests_words_as_returned
      [where http = sampleService and c = "''round''" and u = "'' Rund''", OF h] a b
    by simp
  then show ?thesis
    using h a b by blast
qed

text \<open>
  C8, as the spec states it, fails: the service returns "Circle", the input "circle" has
  the same normalization, and \<open>isSynonymMatch\<close> is false.
\<close>

theorem synonym_capital_counterexample:
  "sampleService ''round'' = Entries [\<lparr>word = ''Circle'', score = 90\<rparr>, \<lparr>word = ''rund'', score = 70\<rparr>]
   \<and> normalizeText ''Circle'' = normalizeText ''circle''
   \<and> isSynonymMatch sampleService ''circle'' ''round'' = Inr False"
  by code_simp

end
